theory Spec2Isabelle
  imports Complex_Main
begin

section \<open>Augmented, randomized diamond-square heightmaps (aug\_ds.py)\<close>

text \<open>
  The heightmap is a Python list of lists of integers that every function mutates in
  place, and the module-level generator of \<open>random\<close> is advanced by every draw. Both live in
  one explicit state, the \<open>world\<close>. A function of the source becomes a function from the
  world to a result: either the exception raised together with the world as it was left at
  that moment, or the returned value together with the new world.

  Numbers. Python evaluates \<open>/\<close> and the products with \<open>0.2\<close> in binary floating point and
  \<open>int(...)\<close> truncates toward zero. The model computes the same expressions over the
  rationals (the constants \<open>0.2\<close> are the fraction one fifth) and truncates toward zero;
  rounding of the floating-point operations is not modelled.

  Random source. The library generator is not part of the repository. It is a parameter:
  a sequence of rationals of which the next unread element decides the next draw.
  \<open>random.random()\<close> yields its fractional part, so every rational in \<open>[0, 1)\<close> can occur;
  \<open>random.randint(a, b)\<close> yields \<open>a\<close> plus its integer part modulo \<open>b - a + 1\<close>, so every
  integer in \<open>[a, b]\<close> can occur, and raises \<open>ValueError\<close> when \<open>b < a\<close> as the library does.

  Not modelled: rows that are one and the same list object (a grid built as
  \<open>[[0] * H] * W\<close>), cells that are not integers, and the interpreter's limit on the
  depth of recursion.
\<close>

subsection \<open>State, errors, results\<close>

datatype error = IndexError | ValueError | ZeroDivisionError

record world =
  world_map :: "int list list"
  draws :: "nat \<Rightarrow> rat"
  drawn :: nat

type_synonym 'a result = "(error \<times> world) + ('a \<times> world)"

definition bindr :: "'a result \<Rightarrow> ('a \<Rightarrow> world \<Rightarrow> 'b result) \<Rightarrow> 'b result" where
  "bindr m f = (case m of Inl e \<Rightarrow> Inl e | Inr (a, w) \<Rightarrow> f a w)"

primrec for_each :: "'a list \<Rightarrow> ('a \<Rightarrow> world \<Rightarrow> unit result) \<Rightarrow> world \<Rightarrow> unit result" where
  "for_each [] body w = Inr ((), w)"
| "for_each (x # xs) body w = bindr (body x w) (\<lambda>_. for_each xs body)"

text \<open>\<open>range(a, b)\<close>: the integers from \<open>a\<close> up to \<open>b - 1\<close>.\<close>

definition py_range :: "int \<Rightarrow> int \<Rightarrow> int list" where
  "py_range a b = [a..b - 1]"

text \<open>\<open>int(q)\<close> of a float: truncation toward zero.\<close>

definition py_int :: "rat \<Rightarrow> int" where
  "py_int q = (if 0 \<le> q then \<lfloor>q\<rfloor> else \<lceil>q\<rceil>)"

subsection \<open>List indexing\<close>

text \<open>A Python index into a list of length \<open>n\<close>: negative indices count from the end,
  anything outside \<open>[-n, n)\<close> raises \<open>IndexError\<close>.\<close>

definition py_index :: "'a list \<Rightarrow> int \<Rightarrow> nat option" where
  "py_index xs i =
     (let n = int (length xs); k = (if i < 0 then n + i else i)
      in if 0 \<le> k \<and> k < n then Some (nat k) else None)"

text \<open>\<open>world_map[x]\<close>\<close>

definition getrow :: "int \<Rightarrow> world \<Rightarrow> int list result" where
  "getrow x w =
     (case py_index (world_map w) x of
        None \<Rightarrow> Inl (IndexError, w)
      | Some r \<Rightarrow> Inr (world_map w ! r, w))"

text \<open>\<open>world_map[x][y]\<close>\<close>

definition getitem :: "int \<Rightarrow> int \<Rightarrow> world \<Rightarrow> int result" where
  "getitem x y w =
     bindr (getrow x w) (\<lambda>row w.
       case py_index row y of
         None \<Rightarrow> Inl (IndexError, w)
       | Some c \<Rightarrow> Inr (row ! c, w))"

text \<open>\<open>world_map[x][y] = v\<close>\<close>

definition setitem :: "int \<Rightarrow> int \<Rightarrow> int \<Rightarrow> world \<Rightarrow> unit result" where
  "setitem x y v w =
     (case py_index (world_map w) x of
        None \<Rightarrow> Inl (IndexError, w)
      | Some r \<Rightarrow>
          (case py_index (world_map w ! r) y of
             None \<Rightarrow> Inl (IndexError, w)
           | Some c \<Rightarrow>
               Inr ((), w\<lparr>world_map := (world_map w)[r := (world_map w ! r)[c := v]]\<rparr>)))"

subsection \<open>The random source\<close>

definition next_draw :: "world \<Rightarrow> rat" where
  "next_draw w = draws w (drawn w)"

definition advance :: "world \<Rightarrow> world" where
  "advance w = w\<lparr>drawn := drawn w + 1\<rparr>"

text \<open>\<open>random.randint(a, b)\<close>: the integer of \<open>[a, b]\<close> that the sequence element \<open>q\<close>
  selects, and the call itself.\<close>

definition randint_value :: "int \<Rightarrow> int \<Rightarrow> rat \<Rightarrow> int" where
  "randint_value a b q = a + \<lfloor>q\<rfloor> mod (b - a + 1)"

definition randint :: "int \<Rightarrow> int \<Rightarrow> world \<Rightarrow> int result" where
  "randint a b w =
     (if b < a then Inl (ValueError, w)
      else Inr (randint_value a b (next_draw w), advance w))"

text \<open>\<open>random.random()\<close>\<close>

definition random_random :: "world \<Rightarrow> rat result" where
  "random_random w = Inr (frac (next_draw w), advance w)"

subsection \<open>The functions of the module\<close>

definition HEIGHT_VARIATION_FACTOR :: rat where
  "HEIGHT_VARIATION_FACTOR = 2 / 10"

definition RANDOMIZATION_SCALE_FACTOR :: rat where
  "RANDOMIZATION_SCALE_FACTOR = 2 / 10"

definition dev :: "int \<Rightarrow> int \<Rightarrow> int \<Rightarrow> int \<Rightarrow> world \<Rightarrow> int result" where
  "dev x0 y0 x1 y1 w =
     bindr (randint (- max (x1 - x0) (y1 - y0)) (max (x1 - x0) (y1 - y0)) w) (\<lambda>r w.
       Inr (py_int (HEIGHT_VARIATION_FACTOR * of_int r), w))"

definition randAugIndex :: "int \<Rightarrow> int \<Rightarrow> world \<Rightarrow> int result" where
  "randAugIndex i0 i1 w =
     (if i0 = i1 \<or> i1 < i0 then Inr (i0, w)
      else if i0 + 1 = i1 then Inr (i0, w)
      else if i0 + 2 = i1 then Inr (i0 + 1, w)
      else bindr (random_random w) (\<lambda>r w.
        let i = py_int (of_int i0 + (RANDOMIZATION_SCALE_FACTOR * r + 1) * of_int (i1 - i0) / 2)
        in Inr (if i = i0 then i + 1 else if i = i1 then i - 1 else i, w)))"

definition Square :: "int \<Rightarrow> int \<Rightarrow> int \<Rightarrow> int \<Rightarrow> int \<Rightarrow> int \<Rightarrow> world \<Rightarrow> unit result" where
  "Square x0 y0 x1 y1 i j w =
     bindr (dev y0 y0 y1 y1 w) (\<lambda>deviation w.
     bindr (getitem x0 y0 w) (\<lambda>a w.
     bindr (getitem x0 y1 w) (\<lambda>b w.
     bindr (getitem i j w) (\<lambda>c w.
     bindr (setitem x0 j (deviation + py_int (of_int (a + b + c) / 3)) w) (\<lambda>_ w.
     bindr (dev y0 y0 y1 y1 w) (\<lambda>deviation w.
     bindr (getitem x1 y0 w) (\<lambda>a w.
     bindr (getitem x1 y1 w) (\<lambda>b w.
     bindr (getitem i j w) (\<lambda>c w.
     bindr (setitem x1 j (deviation + py_int (of_int (a + b + c) / 3)) w) (\<lambda>_ w.
     bindr (dev x0 x0 x1 x1 w) (\<lambda>deviation w.
     bindr (getitem x0 y0 w) (\<lambda>a w.
     bindr (getitem x1 y0 w) (\<lambda>b w.
     bindr (getitem i j w) (\<lambda>c w.
     bindr (setitem i y0 (deviation + py_int (of_int (a + b + c) / 3)) w) (\<lambda>_ w.
     bindr (dev x0 x0 x1 x1 w) (\<lambda>deviation w.
     bindr (getitem x0 y1 w) (\<lambda>a w.
     bindr (getitem x1 y1 w) (\<lambda>b w.
     bindr (getitem i j w) (\<lambda>c w.
     setitem i y1 (deviation + py_int (of_int (a + b + c) / 3)) w)))))))))))))))))))"

definition Diamond :: "int \<Rightarrow> int \<Rightarrow> int \<Rightarrow> int \<Rightarrow> int \<Rightarrow> int \<Rightarrow> world \<Rightarrow> unit result" where
  "Diamond x0 y0 x1 y1 i j w =
     bindr (dev x0 y0 x1 y1 w) (\<lambda>deviation w.
     bindr (getitem x0 y0 w) (\<lambda>a w.
     bindr (getitem x1 y0 w) (\<lambda>b w.
     bindr (getitem x0 y1 w) (\<lambda>c w.
     bindr (getitem x1 y1 w) (\<lambda>d w.
     setitem i j (deviation + py_int (of_int (a + b + c + d) / 4)) w)))))"

text \<open>The right-hand side \<open>int(a + (b - a) * k / n)\<close> of the two interpolation loops, for
  already read integers; \<open>/\<close> raises on a zero divisor.\<close>

definition slope :: "int \<Rightarrow> int \<Rightarrow> int \<Rightarrow> int \<Rightarrow> world \<Rightarrow> int result" where
  "slope a d k n w =
     (if n = 0 then Inl (ZeroDivisionError, w)
      else Inr (py_int (of_int a + of_int (d * k) / of_int n), w))"

text \<open>One assignment of the loop of the first branch (the source has it twice):
  \<open>world_map[i][y] = int(world_map[i][y0] + (world_map[i][y1] - world_map[i][y0]) * (y - y0) / (y1 - y0))\<close>\<close>

definition column_assign :: "int \<Rightarrow> int \<Rightarrow> int \<Rightarrow> int \<Rightarrow> world \<Rightarrow> unit result" where
  "column_assign i y0 y1 y w =
     bindr (getitem i y0 w) (\<lambda>a w.
     bindr (getitem i y1 w) (\<lambda>b w.
     bindr (getitem i y0 w) (\<lambda>a' w.
     bindr (slope a (b - a') (y - y0) (y1 - y0) w) (\<lambda>v w.
     setitem i y v w))))"

text \<open>One assignment of the loop of the second branch (the source has it twice):
  \<open>world_map[x][j] = int(world_map[x0][j] + (world_map[x0][j] - world_map[x1][j]) * (x - x0) / (x1 - x0))\<close>\<close>

definition row_assign :: "int \<Rightarrow> int \<Rightarrow> int \<Rightarrow> int \<Rightarrow> world \<Rightarrow> unit result" where
  "row_assign j x0 x1 x w =
     bindr (getitem x0 j w) (\<lambda>a w.
     bindr (getitem x0 j w) (\<lambda>a' w.
     bindr (getitem x1 j w) (\<lambda>b w.
     bindr (slope a (a' - b) (x - x0) (x1 - x0) w) (\<lambda>v w.
     setitem x j v w))))"

lemma bindr_cong [fundef_cong]:
  "m = m' \<Longrightarrow> (\<And>a w. m' = Inr (a, w) \<Longrightarrow> f a w = f' a w) \<Longrightarrow> bindr m f = bindr m' f'"
  by (auto simp: bindr_def split: sum.splits)

lemma frac_range_rat: "0 \<le> frac (q::rat) \<and> frac q < 1"
  by (simp add: frac_lt_1)

lemma py_int_between:
  assumes "of_int lo + 1 \<le> q" "q \<le> of_int hi - 1"
  shows "lo < py_int q \<and> py_int q < hi"
proof -
  have "lo < \<lfloor>q\<rfloor>" using assms(1) by linarith
  moreover have "\<lceil>q\<rceil> < hi" using assms(2) by linarith
  moreover have "\<lfloor>q\<rfloor> \<le> \<lceil>q\<rceil>" by linarith
  ultimately show ?thesis unfolding py_int_def by (cases "0 \<le> q") (simp_all, linarith+)
qed

lemma midpoint_value_bounds:
  fixes r :: rat
  assumes "0 \<le> r" "r < 1" "i0 + 3 \<le> i1"
  shows "of_int i0 + 1 \<le> of_int i0 + (RANDOMIZATION_SCALE_FACTOR * r + 1) * of_int (i1 - i0) / 2"
    and "of_int i0 + (RANDOMIZATION_SCALE_FACTOR * r + 1) * of_int (i1 - i0) / 2 \<le> of_int i1 - 1"
proof -
  define d :: rat where "d = of_int (i1 - i0)"
  have d3: "3 \<le> d" using assms(3) unfolding d_def by linarith
  have rd0: "0 \<le> r * d" using assms(1) d3 by simp
  have rd1: "r * d \<le> d" using assms(2) d3 by (simp add: mult_left_le_one_le)
  have eq: "(RANDOMIZATION_SCALE_FACTOR * r + 1) * d / 2 = (r * d) / 10 + d / 2"
    by (simp add: RANDOMIZATION_SCALE_FACTOR_def algebra_simps)
  have i1: "(of_int i1 :: rat) = of_int i0 + d" by (simp add: d_def)
  show "of_int i0 + 1 \<le> of_int i0 + (RANDOMIZATION_SCALE_FACTOR * r + 1) * of_int (i1 - i0) / 2"
    using rd0 d3 eq unfolding d_def[symmetric] by linarith
  show "of_int i0 + (RANDOMIZATION_SCALE_FACTOR * r + 1) * of_int (i1 - i0) / 2 \<le> of_int i1 - 1"
    using rd1 d3 eq i1 unfolding d_def[symmetric] by linarith
qed

lemma randAugIndex_interior:
  assumes "randAugIndex i0 i1 w = Inr (i, w')" "i \<noteq> i0" "i \<noteq> i1"
  shows "i0 < i \<and> i < i1"
proof (cases "i0 + 3 \<le> i1")
  case True
  let ?q = "of_int i0 + (RANDOMIZATION_SCALE_FACTOR * frac (next_draw w) + 1) * of_int (i1 - i0) / 2"
  have b: "i0 < py_int ?q \<and> py_int ?q < i1"
    using midpoint_value_bounds[OF _ _ True, of "frac (next_draw w)"] frac_range_rat[of "next_draw w"]
    by (intro py_int_between) auto
  from True assms(1) have "i = py_int ?q"
    using b by (auto simp: randAugIndex_def random_random_def bindr_def Let_def split: if_splits)
  with b show ?thesis by simp
next
  case False
  with assms show ?thesis
    by (auto simp: randAugIndex_def split: if_splits)
qed

function auxRandAugDS :: "int \<Rightarrow> int \<Rightarrow> int \<Rightarrow> int \<Rightarrow> world \<Rightarrow> unit result" where
  "auxRandAugDS x0 y0 x1 y1 w =
     (if x0 = x1 \<and> y0 = y1 then Inr ((), w)
      else
        bindr (randAugIndex x0 x1 w) (\<lambda>i w.
        bindr (randAugIndex y0 y1 w) (\<lambda>j w.
          if i = x0 \<or> i = x1 then
            for_each (py_range (y0 + 1) y1) (\<lambda>y w.
              bindr (column_assign i y0 y1 y w) (\<lambda>_ w. column_assign i y0 y1 y w)) w
          else if j = y0 \<or> j = y1 then
            for_each (py_range (x0 + 1) x1) (\<lambda>x w.
              bindr (row_assign j x0 x1 x w) (\<lambda>_ w. row_assign j x0 x1 x w)) w
          else
            bindr (Diamond x0 y0 x1 y1 i j w) (\<lambda>_ w.
            bindr (Square x0 y0 x1 y1 i j w) (\<lambda>_ w.
            bindr (auxRandAugDS x0 y0 i j w) (\<lambda>_ w.
            bindr (auxRandAugDS x0 j i y1 w) (\<lambda>_ w.
            bindr (auxRandAugDS i y0 x1 j w) (\<lambda>_ w.
            auxRandAugDS i j x1 y1 w))))))))"
  by pat_completeness auto
text \<open>Every recursive call is on a region whose two spans add up to less.\<close>

lemma auxRandAugDS_total: "All auxRandAugDS_dom"
proof (relation "measure (\<lambda>(x0, y0, x1, y1, w). nat (x1 - x0) + nat (y1 - y0))", goal_cases)
  case 1
  show ?case by simp
next
  case (2 x0 y0 x1 y1 w i w1 j w2)
  then show ?case
    using randAugIndex_interior[of x0 x1 w i w1] randAugIndex_interior[of y0 y1 w1 j w2] by auto
next
  case (3 x0 y0 x1 y1 w i w1 j w2)
  then show ?case
    using randAugIndex_interior[of x0 x1 w i w1] randAugIndex_interior[of y0 y1 w1 j w2] by auto
next
  case (4 x0 y0 x1 y1 w i w1 j w2)
  then show ?case
    using randAugIndex_interior[of x0 x1 w i w1] randAugIndex_interior[of y0 y1 w1 j w2] by auto
next
  case (5 x0 y0 x1 y1 w i w1 j w2)
  then show ?case
    using randAugIndex_interior[of x0 x1 w i w1] randAugIndex_interior[of y0 y1 w1 j w2] by auto
qed

termination auxRandAugDS
  by (rule auxRandAugDS_total)

declare auxRandAugDS.simps [simp del]

text \<open>One test of \<open>edgeCleanup\<close>: if the cell \<open>world_map[p][q]\<close> is \<open>0\<close> and the index guard
  \<open>inner\<close> holds, the cell becomes \<open>int((n1 + n2 + n3) / 3)\<close> for the three neighbour cells
  named by their index pairs.\<close>

definition repair :: "int \<Rightarrow> int \<Rightarrow> bool \<Rightarrow> int \<times> int \<Rightarrow> int \<times> int \<Rightarrow> int \<times> int
    \<Rightarrow> world \<Rightarrow> unit result" where
  "repair p q inner n1 n2 n3 w =
     bindr (getitem p q w) (\<lambda>v w.
       if v = 0 then
         if inner then
           bindr (getitem (fst n1) (snd n1) w) (\<lambda>a w.
           bindr (getitem (fst n2) (snd n2) w) (\<lambda>b w.
           bindr (getitem (fst n3) (snd n3) w) (\<lambda>c w.
           setitem p q (py_int (of_int (a + b + c) / 3)) w)))
         else Inr ((), w)
       else Inr ((), w))"

definition cleanup_x :: "int \<Rightarrow> world \<Rightarrow> unit result" where
  "cleanup_x x w =
     bindr (repair x 0 (0 < x \<and> x < int (length (world_map w)) - 1)
              (x - 1, 0) (x, 1) (x + 1, 0) w) (\<lambda>_ w.
     repair x (- 1) (0 < x \<and> x < int (length (world_map w)) - 1)
              (x - 1, - 1) (x, - 2) (x + 1, - 1) w)"

definition cleanup_y :: "int \<Rightarrow> world \<Rightarrow> unit result" where
  "cleanup_y y w =
     bindr (getrow 0 w) (\<lambda>row0 w.
     bindr (repair 0 y (0 < y \<and> y < int (length row0) - 1)
              (0, y - 1) (1, y) (0, y + 1) w) (\<lambda>_ w.
     bindr (getrow 0 w) (\<lambda>row0 w.
     repair (- 1) y (0 < y \<and> y < int (length row0) - 1)
              (- 1, y - 1) (- 2, y) (- 1, y + 1) w)))"

definition edgeCleanup :: "world \<Rightarrow> unit result" where
  "edgeCleanup w =
     bindr (for_each (py_range 0 (int (length (world_map w)))) cleanup_x w) (\<lambda>_ w.
     bindr (getrow 0 w) (\<lambda>row0 w.
     for_each (py_range 0 (int (length row0))) cleanup_y w))"

text \<open>The four corner assignments of \<open>randAugDS\<close>, each drawing its value first.\<close>

definition init_corners :: "int \<Rightarrow> int \<Rightarrow> int \<Rightarrow> int \<Rightarrow> world \<Rightarrow> unit result" where
  "init_corners x0 y0 x1 y1 w =
     bindr (randint 0 (max x1 y1) w) (\<lambda>v w.
     bindr (setitem x0 y0 v w) (\<lambda>_ w.
     bindr (randint 0 (max x1 y1) w) (\<lambda>v w.
     bindr (setitem x0 y1 v w) (\<lambda>_ w.
     bindr (randint 0 (max x1 y1) w) (\<lambda>v w.
     bindr (setitem x1 y0 v w) (\<lambda>_ w.
     bindr (randint 0 (max x1 y1) w) (\<lambda>v w.
     setitem x1 y1 v w)))))))"

text \<open>\<open>random.seed(seed)\<close> replaces the generator's state, whatever it was, by one that
  depends on the seed only: \<open>gen seed\<close> is the sequence the seeded generator will deliver,
  none of it read yet.\<close>

definition random_seed :: "(int \<Rightarrow> nat \<Rightarrow> rat) \<Rightarrow> int \<Rightarrow> world \<Rightarrow> world" where
  "random_seed gen seed w = w\<lparr>draws := gen seed, drawn := 0\<rparr>"

text \<open>\<open>randAugDS(world_map, seed)\<close>, the argument grid being the \<open>world_map\<close> of the world
  at the call. \<open>len(world_map[0])\<close> raises on an empty list.\<close>

definition randAugDS :: "(int \<Rightarrow> nat \<Rightarrow> rat) \<Rightarrow> int \<Rightarrow> world \<Rightarrow> int list list result" where
  "randAugDS gen seed w =
     (let w = random_seed gen seed w;
          x0 = 0;
          x1 = int (length (world_map w)) - 1;
          y0 = 0
      in bindr (getrow 0 w) (\<lambda>row0 w.
         let y1 = int (length row0) - 1
         in bindr (init_corners x0 y0 x1 y1 w) (\<lambda>_ w.
            bindr (auxRandAugDS x0 y0 x1 y1 w) (\<lambda>_ w.
            bindr (edgeCleanup w) (\<lambda>_ w.
            Inr (world_map w, w))))))"

text \<open>The grid of the usage example, \<open>[[0 for j in range(H)] for i in range(W)]\<close>, in a
  world whose generator is in an arbitrary state.\<close>

definition zero_map :: "nat \<Rightarrow> nat \<Rightarrow> int list list" where
  "zero_map W H = replicate W (replicate H 0)"

text \<open>Notions for stating results: a grid of \<open>W\<close> rows of \<open>H\<close> cells each; an index pair
  that is inside the grid without wrapping; the cell it names; the grid after an assignment
  to that cell; and the value \<open>dev\<close> returns when the sequence element \<open>q\<close> is drawn.\<close>

definition rect :: "nat \<Rightarrow> nat \<Rightarrow> int list list \<Rightarrow> bool" where
  "rect W H m \<longleftrightarrow> length m = W \<and> (\<forall>row \<in> set m. length row = H)"

definition inb :: "int list list \<Rightarrow> int \<Rightarrow> int \<Rightarrow> bool" where
  "inb m x y \<longleftrightarrow> 0 \<le> x \<and> x < int (length m) \<and> 0 \<le> y \<and> y < int (length (m ! nat x))"

definition cell :: "int list list \<Rightarrow> int \<Rightarrow> int \<Rightarrow> int" where
  "cell m x y = m ! nat x ! nat y"

definition put :: "int list list \<Rightarrow> int \<Rightarrow> int \<Rightarrow> int \<Rightarrow> int list list" where
  "put m x y v = m[nat x := (m ! nat x)[nat y := v]]"

definition dev_value :: "int \<Rightarrow> int \<Rightarrow> int \<Rightarrow> int \<Rightarrow> rat \<Rightarrow> int" where
  "dev_value x0 y0 x1 y1 q =
     py_int (HEIGHT_VARIATION_FACTOR
             * of_int (randint_value (- max (x1 - x0) (y1 - y0)) (max (x1 - x0) (y1 - y0)) q))"

text \<open>Frames. \<open>keeps S m m'\<close>: the grid \<open>m'\<close> has the shape of \<open>m\<close> and the same value in every
  cell outside \<open>S\<close>. The cells a call of the driver on a region may write are those of the
  region other than its four corners; the cells the cleanup may write are those of the border
  of the whole grid other than its four corners. \<open>wrap\<close> resolves a negative index.\<close>

definition keeps :: "(int \<times> int) set \<Rightarrow> int list list \<Rightarrow> int list list \<Rightarrow> bool" where
  "keeps S m m' \<longleftrightarrow>
     length m' = length m \<and> (\<forall>k. length (m' ! k) = length (m ! k))
     \<and> (\<forall>x y. inb m x y \<longrightarrow> (x, y) \<notin> S \<longrightarrow> cell m' x y = cell m x y)"




text \<open>Concrete generators and worlds for the examples below.\<close>

definition const_gen :: "rat \<Rightarrow> int \<Rightarrow> nat \<Rightarrow> rat" where
  "const_gen q seed n = q"

definition fourth_gen :: "int \<Rightarrow> nat \<Rightarrow> rat" where
  "fourth_gen seed n = (if n = 3 then 2 else 0)"

definition first_gen :: "int \<Rightarrow> nat \<Rightarrow> rat" where
  "first_gen seed n = (if n = 0 then 1 else 0)"

definition count_gen :: "int \<Rightarrow> nat \<Rightarrow> rat" where
  "count_gen seed n = of_nat n"

definition world_of :: "int list list \<Rightarrow> world" where
  "world_of m = \<lparr>world_map = m, draws = (\<lambda>n. 0), drawn = 0\<rparr>"

section \<open>Basic facts\<close>

lemma bindr_Inr [simp]: "bindr (Inr (a, w)) f = f a w"
  by (simp add: bindr_def)

lemma bindr_Inl [simp]: "bindr (Inl e) f = Inl e"
  by (simp add: bindr_def)

lemma advance_fields [simp]:
  "world_map (advance w) = world_map w"
  "draws (advance w) = draws w"
  "drawn (advance w) = drawn w + 1"
  by (simp_all add: advance_def)

text \<open>Every rational of \<open>[0, 1)\<close> is the draw of \<open>random.random()\<close> in some world.\<close>

lemma random_random_any:
  assumes "0 \<le> r" "r < 1"
  shows "random_random (w\<lparr>draws := \<lambda>n. r\<rparr>) = Inr (r, advance (w\<lparr>draws := \<lambda>n. r\<rparr>))"
proof -
  have "\<lfloor>r\<rfloor> = 0" using assms by (simp add: floor_eq_iff)
  then show ?thesis by (simp add: random_random_def next_draw_def frac_def)
qed

lemma py_int_of_int [simp]: "py_int (of_int k) = k"
  by (simp add: py_int_def)

lemma py_int_quotient:
  assumes "0 < b"
  shows "py_int (of_int a / of_int b) = (if 0 \<le> a then a div b else - (- a div b))"
proof -
  have sign: "(0 \<le> (of_int a / of_int b :: rat)) = (0 \<le> a)"
    using assms by (simp add: zero_le_divide_iff)
  have fl: "\<lfloor>of_int a / of_int b :: rat\<rfloor> = a div b"
    by (rule floor_divide_of_int_eq)
  have "\<lceil>of_int a / of_int b :: rat\<rceil> = - \<lfloor>of_int (- a) / of_int b :: rat\<rfloor>"
    by (simp add: ceiling_def)
  then have ce: "\<lceil>of_int a / of_int b :: rat\<rceil> = - (- a div b)"
    by (simp only: floor_divide_of_int_eq)
  show ?thesis unfolding py_int_def sign fl ce by simp
qed

lemma floor_rat_numeral_divide [simp]:
  "\<lfloor>numeral a / numeral b :: rat\<rfloor> = numeral a div numeral b"
  using floor_divide_of_int_eq[of "numeral a" "numeral b", where ?'a = rat] by simp

lemma py_int_numerals [simp]:
  "py_int 0 = 0"
  "py_int 1 = 1"
  "py_int (numeral a) = numeral a"
  "py_int (- numeral a) = - numeral a"
  "py_int (- 1) = - 1"
  "py_int (numeral a / numeral b) = numeral a div numeral b"
  "py_int (- (numeral a / numeral b)) = - (numeral a div numeral b)"
  "py_int (1 / numeral b) = 1 div numeral b"
  "py_int (- (1 / numeral b)) = - (1 div numeral b)"
proof -
  show "py_int 0 = 0" "py_int 1 = 1" "py_int (numeral a) = numeral a"
    "py_int (- numeral a) = - numeral a"
    by (simp_all add: py_int_def)
  show "py_int (- 1) = - 1"
    using py_int_of_int[of "- 1"] by simp
  show "py_int (numeral a / numeral b) = numeral a div numeral b"
    using py_int_quotient[of "numeral b" "numeral a"] by simp
  show "py_int (- (numeral a / numeral b)) = - (numeral a div numeral b)"
    using py_int_quotient[of "numeral b" "- numeral a"] by simp
  show "py_int (1 / numeral b) = 1 div numeral b"
    using py_int_quotient[of "numeral b" 1] by simp
  show "py_int (- (1 / numeral b)) = - (1 div numeral b)"
    using py_int_quotient[of "numeral b" "- 1"] by simp
qed

text \<open>Unfolding the definitions on concrete inputs.\<close>

lemma replicate_numeral_step: "replicate (numeral k) x = x # replicate (pred_numeral k) x"
  by (simp add: numeral_eq_Suc)

lemmas cell_defs = getitem_def getrow_def setitem_def py_index_def Let_def

lemmas draw_defs = randint_def randint_value_def random_random_def next_draw_def advance_def dev_def
  HEIGHT_VARIATION_FACTOR_def RANDOMIZATION_SCALE_FACTOR_def

lemmas step_defs = auxRandAugDS.simps randAugIndex_def Square_def Diamond_def slope_def column_assign_def
  row_assign_def py_range_def upto_rec1 repair_def cleanup_x_def cleanup_y_def edgeCleanup_def
  init_corners_def randAugDS_def random_seed_def

lemmas input_defs = world_of_def zero_map_def const_gen_def fourth_gen_def first_gen_def
  count_gen_def replicate_numeral_step


lemma randAugIndex_large:
  assumes "i0 + 3 \<le> i1"
  shows "\<exists>i. randAugIndex i0 i1 w = Inr (i, advance w) \<and> i0 < i \<and> i < i1"
proof -
  let ?q = "of_int i0 + (RANDOMIZATION_SCALE_FACTOR * frac (next_draw w) + 1) * of_int (i1 - i0) / 2"
  have b: "i0 < py_int ?q \<and> py_int ?q < i1"
    using midpoint_value_bounds[OF _ _ assms, of "frac (next_draw w)"] frac_range_rat[of "next_draw w"]
    by (intro py_int_between) auto
  have "randAugIndex i0 i1 w = Inr (py_int ?q, advance w)"
    using assms b by (simp add: randAugIndex_def random_random_def Let_def)
  with b show ?thesis by blast
qed

section \<open>Cells, assignments and draws on a grid\<close>

lemma rect_inb: "rect W H m \<Longrightarrow> inb m x y = (0 \<le> x \<and> x < int W \<and> 0 \<le> y \<and> y < int H)"
proof -
  assume r: "rect W H m"
  have "length (m ! nat x) = H" if "0 \<le> x" "x < int W"
  proof -
    have "nat x < length m" using that r by (simp add: rect_def nat_less_iff)
    then have "m ! nat x \<in> set m" by (rule nth_mem)
    then show ?thesis using r by (simp add: rect_def)
  qed
  then show ?thesis using r by (auto simp: inb_def rect_def)
qed

lemma length_put [simp]: "length (put m x y v) = length m"
  by (simp add: put_def)

lemma length_row_put [simp]: "length (put m x y v ! k) = length (m ! k)"
  by (cases "nat x < length m"; cases "k = nat x") (simp_all add: put_def list_update_beyond)

lemma inb_put [simp]: "inb (put m a b v) x y = inb m x y"
  by (simp add: inb_def)

lemma rect_put [simp]: "rect W H (put m x y v) = rect W H m"
  by (simp add: rect_def list_eq_iff_nth_eq all_set_conv_all_nth)

lemma cell_put:
  assumes "inb m x y" "inb m x' y'"
  shows "cell (put m x y v) x' y' = (if x' = x \<and> y' = y then v else cell m x' y')"
proof -
  have len: "nat x < length m" "nat x' < length m" "nat y < length (m ! nat x)"
    using assms by (auto simp: inb_def)
  have eqs: "(nat x' = nat x) = (x' = x)" "(nat y' = nat y) = (y' = y)"
    using assms by (auto simp: inb_def)
  show ?thesis
    using len eqs by (auto simp: cell_def put_def nth_list_update)
qed

lemma py_index_nonneg: "0 \<le> i \<Longrightarrow> i < int (length xs) \<Longrightarrow> py_index xs i = Some (nat i)"
  by (simp add: py_index_def)

lemma getitem_in: "inb (world_map w) x y \<Longrightarrow> getitem x y w = Inr (cell (world_map w) x y, w)"
  by (simp add: getitem_def getrow_def inb_def py_index_nonneg cell_def)

lemma setitem_in:
  "inb (world_map w) x y \<Longrightarrow> setitem x y v w = Inr ((), w\<lparr>world_map := put (world_map w) x y v\<rparr>)"
  by (simp add: setitem_def inb_def py_index_nonneg put_def)

lemma randint_in: "a \<le> b \<Longrightarrow> randint a b w = Inr (randint_value a b (next_draw w), advance w)"
  by (simp add: randint_def)

lemma randint_value_range: "a \<le> b \<Longrightarrow> a \<le> randint_value a b q \<and> randint_value a b q \<le> b"
proof -
  assume "a \<le> b"
  then have "0 < b - a + 1" by simp
  then have "0 \<le> \<lfloor>q\<rfloor> mod (b - a + 1)" "\<lfloor>q\<rfloor> mod (b - a + 1) < b - a + 1"
    by (simp_all only: pos_mod_sign pos_mod_bound)
  then show ?thesis by (simp add: randint_value_def)
qed

lemma dev_in:
  "0 \<le> x1 - x0 \<or> 0 \<le> y1 - y0 \<Longrightarrow>
     dev x0 y0 x1 y1 w = Inr (dev_value x0 y0 x1 y1 (next_draw w), advance w)"
  by (auto simp: dev_def randint_in dev_value_def)



lemma put_put_same [simp]: "put (put m x y v) x y v' = put m x y v'"
  by (cases "nat x < length m") (simp_all add: put_def list_update_beyond)

lemma column_assign_in:
  assumes "inb (world_map w) i y0" "inb (world_map w) i y1" "y0 < y" "y < y1"
  shows "column_assign i y0 y1 y w = Inr ((), w\<lparr>world_map := put (world_map w) i y
           (py_int (of_int (cell (world_map w) i y0)
              + of_int ((cell (world_map w) i y1 - cell (world_map w) i y0) * (y - y0))
                / of_int (y1 - y0)))\<rparr>)"
proof -
  have "inb (world_map w) i y" using assms by (simp add: inb_def)
  then show ?thesis
    using assms by (simp add: column_assign_def getitem_in setitem_in slope_def)
qed

lemma column_loop:
  assumes "\<forall>y \<in> set ys. y0 < y \<and> y < y1" "inb (world_map w) i y0" "inb (world_map w) i y1"
    "cell (world_map w) i y0 = a" "cell (world_map w) i y1 = b"
  shows "\<exists>w'. for_each ys (\<lambda>y w. bindr (column_assign i y0 y1 y w)
                                     (\<lambda>_ w. column_assign i y0 y1 y w)) w = Inr ((), w')
           \<and> draws w' = draws w \<and> drawn w' = drawn w
           \<and> length (world_map w') = length (world_map w)
           \<and> (\<forall>k. length (world_map w' ! k) = length (world_map w ! k))
           \<and> (\<forall>x y. inb (world_map w) x y \<longrightarrow>
                 cell (world_map w') x y =
                   (if x = i \<and> y \<in> set ys
                    then py_int (of_int a + of_int ((b - a) * (y - y0)) / of_int (y1 - y0))
                    else cell (world_map w) x y))"
  using assms
proof (induction ys arbitrary: w)
  case Nil
  then show ?case by simp
next
  case (Cons y ys)
  let ?v = "py_int (of_int a + of_int ((b - a) * (y - y0)) / of_int (y1 - y0))"
  let ?w1 = "w\<lparr>world_map := put (world_map w) i y ?v\<rparr>"
  have y: "y0 < y" "y < y1" using Cons.prems(1) by simp_all
  have iy: "inb (world_map w) i y" using Cons.prems(2,3) y by (simp add: inb_def)
  have step1: "column_assign i y0 y1 y w = Inr ((), ?w1)"
    using column_assign_in[OF Cons.prems(2,3) y] Cons.prems(4,5) by simp
  have c0: "cell (world_map ?w1) i y0 = a" "cell (world_map ?w1) i y1 = b"
    using Cons.prems(2-5) iy y by (simp_all add: cell_put)
  have i1: "inb (world_map ?w1) i y0" "inb (world_map ?w1) i y1"
    using Cons.prems(2,3) by simp_all
  have step2: "column_assign i y0 y1 y ?w1 = Inr ((), ?w1)"
    unfolding column_assign_in[OF i1 y] c0 by simp
  have body: "bindr (column_assign i y0 y1 y w) (\<lambda>_ w. column_assign i y0 y1 y w) = Inr ((), ?w1)"
    by (simp only: step1 bindr_Inr step2)
  from Cons.IH[of ?w1] Cons.prems c0 obtain w' where
    w': "for_each ys (\<lambda>y w. bindr (column_assign i y0 y1 y w)
                                     (\<lambda>_ w. column_assign i y0 y1 y w)) ?w1 = Inr ((), w')"
      "draws w' = draws w" "drawn w' = drawn w"
      "length (world_map w') = length (world_map w)"
      "\<forall>k. length (world_map w' ! k) = length (world_map w ! k)"
      "\<forall>x y. inb (world_map w) x y \<longrightarrow>
                 cell (world_map w') x y =
                   (if x = i \<and> y \<in> set ys
                    then py_int (of_int a + of_int ((b - a) * (y - y0)) / of_int (y1 - y0))
                    else cell (world_map ?w1) x y)"
    by auto
  have cells: "cell (world_map w') x' y' =
                   (if x' = i \<and> y' \<in> set (y # ys)
                    then py_int (of_int a + of_int ((b - a) * (y' - y0)) / of_int (y1 - y0))
                    else cell (world_map w) x' y')" if "inb (world_map w) x' y'" for x' y'
    using w'(6) that iy by (auto simp: cell_put)
  show ?case
    using w'(1-5) cells by (simp add: body)
qed

lemma randAugIndex_total:
  "\<exists>i w'. randAugIndex i0 i1 w = Inr (i, w') \<and> world_map w' = world_map w \<and> draws w' = draws w"
  by (simp add: randAugIndex_def random_random_def Let_def)

lemma set_py_range [simp]: "set (py_range a b) = {y. a \<le> y \<and> y < b}"
  by (auto simp: py_range_def)

lemma column_branch_cells:
  assumes "\<not> (x0 = x1 \<and> y0 = y1)"
    and "randAugIndex x0 x1 w = Inr (i, w1)" and "i = x0 \<or> i = x1"
    and "inb (world_map w) i y0" and "inb (world_map w) i y1"
  shows "\<exists>w'. auxRandAugDS x0 y0 x1 y1 w = Inr ((), w')
           \<and> length (world_map w') = length (world_map w)
           \<and> (\<forall>k. length (world_map w' ! k) = length (world_map w ! k))
           \<and> (\<forall>x y. inb (world_map w) x y \<longrightarrow>
                 cell (world_map w') x y =
                   (if x = i \<and> y0 < y \<and> y < y1
                    then py_int (of_int (cell (world_map w) i y0)
                           + of_int (cell (world_map w) i y1 - cell (world_map w) i y0)
                             * of_int (y - y0) / of_int (y1 - y0))
                    else cell (world_map w) x y))"
proof -
  obtain i' w1' where a1: "randAugIndex x0 x1 w = Inr (i', w1')" "world_map w1' = world_map w"
    using randAugIndex_total[of x0 x1 w] by blast
  with assms(2) have w1: "world_map w1 = world_map w" by simp
  obtain j w2 where a2: "randAugIndex y0 y1 w1 = Inr (j, w2)" "world_map w2 = world_map w1"
    using randAugIndex_total[of y0 y1 w1] by blast
  have w2: "world_map w2 = world_map w" using a2 w1 by simp
  have unf: "auxRandAugDS x0 y0 x1 y1 w =
      for_each (py_range (y0 + 1) y1) (\<lambda>y w. bindr (column_assign i y0 y1 y w)
                                     (\<lambda>_ w. column_assign i y0 y1 y w)) w2"
    using assms(1,3) by (subst auxRandAugDS.simps) (auto simp: assms(2) a2)
  from column_loop[of "py_range (y0 + 1) y1" y0 y1 w2 i, OF _ _ _ refl refl] assms(4,5) w2
  obtain w' where w': "for_each (py_range (y0 + 1) y1) (\<lambda>y w. bindr (column_assign i y0 y1 y w)
                                     (\<lambda>_ w. column_assign i y0 y1 y w)) w2 = Inr ((), w')"
      "length (world_map w') = length (world_map w)"
      "\<forall>k. length (world_map w' ! k) = length (world_map w ! k)"
      "\<forall>x y. inb (world_map w) x y \<longrightarrow>
                 cell (world_map w') x y =
                   (if x = i \<and> y \<in> set (py_range (y0 + 1) y1)
                    then py_int (of_int (cell (world_map w) i y0)
                           + of_int ((cell (world_map w) i y1 - cell (world_map w) i y0) * (y - y0))
                             / of_int (y1 - y0))
                    else cell (world_map w) x y)"
    by auto
  have cells: "cell (world_map w') x y =
                   (if x = i \<and> y0 < y \<and> y < y1
                    then py_int (of_int (cell (world_map w) i y0)
                           + of_int (cell (world_map w) i y1 - cell (world_map w) i y0)
                             * of_int (y - y0) / of_int (y1 - y0))
                    else cell (world_map w) x y)" if "inb (world_map w) x y" for x y
  proof -
    have "(y \<in> set (py_range (y0 + 1) y1)) = (y0 < y \<and> y < y1)" by auto
    then show ?thesis using w'(4) that by simp
  qed
  show ?thesis
    unfolding unf w'(1) using w'(2,3) cells by blast
qed

lemma random_seed_fields [simp]:
  "world_map (random_seed gen seed w) = world_map w"
  "draws (random_seed gen seed w) = gen seed"
  "drawn (random_seed gen seed w) = 0"
  by (simp_all add: random_seed_def)

lemma init_corners_in:
  assumes "inb (world_map w) x0 y0" "inb (world_map w) x0 y1" "inb (world_map w) x1 y0"
    "inb (world_map w) x1 y1" "0 \<le> x1 \<or> 0 \<le> y1"
  shows "\<exists>w'. init_corners x0 y0 x1 y1 w = Inr ((), w') \<and> draws w' = draws w
           \<and> drawn w' = drawn w + 4
           \<and> world_map w' =
               put (put (put (put (world_map w)
                 x0 y0 (randint_value 0 (max x1 y1) (draws w (drawn w))))
                 x0 y1 (randint_value 0 (max x1 y1) (draws w (Suc (drawn w)))))
                 x1 y0 (randint_value 0 (max x1 y1) (draws w (Suc (Suc (drawn w))))))
                 x1 y1 (randint_value 0 (max x1 y1) (draws w (Suc (Suc (Suc (drawn w))))))"
proof -
  have m: "0 \<le> max x1 y1" using assms(5) by auto
  show ?thesis
    using assms(1-4) m
    by (simp add: init_corners_def randint_in setitem_in next_draw_def)
qed

lemma randAugDS_rect:
  assumes "rect W H (world_map w)" "0 < W"
  shows "randAugDS gen seed w =
           bindr (init_corners 0 0 (int W - 1) (int H - 1) (random_seed gen seed w)) (\<lambda>_ w.
           bindr (auxRandAugDS 0 0 (int W - 1) (int H - 1) w) (\<lambda>_ w.
           bindr (edgeCleanup w) (\<lambda>_ w. Inr (world_map w, w))))"
proof -
  have "world_map w \<noteq> []" using assms by (auto simp: rect_def)
  moreover have "length (world_map w ! 0) = H"
    using assms nth_mem[of 0 "world_map w"] by (auto simp: rect_def)
  ultimately show ?thesis
    using assms by (simp add: randAugDS_def getrow_def py_index_def Let_def rect_def)
qed

lemma rect_same_lengths:
  assumes "rect W H m" "length m' = length m" "\<forall>k. length (m' ! k) = length (m ! k)"
  shows "rect W H m'"
  using assms unfolding rect_def all_set_conv_all_nth by simp

lemma column_branch_draws:
  assumes "\<not> (x0 = x1 \<and> y0 = y1)"
    and "randAugIndex x0 x1 w = Inr (i, w1)" and "i = x0 \<or> i = x1"
    and "randAugIndex y0 y1 w1 = Inr (j, w2)"
    and "inb (world_map w) i y0" and "inb (world_map w) i y1"
  shows "\<exists>w'. auxRandAugDS x0 y0 x1 y1 w = Inr ((), w') \<and> draws w' = draws w2
           \<and> drawn w' = drawn w2"
proof -
  have "world_map w1 = world_map w" using randAugIndex_total[of x0 x1 w] assms(2) by auto
  moreover have "world_map w2 = world_map w1" using randAugIndex_total[of y0 y1 w1] assms(4) by auto
  ultimately have w2: "world_map w2 = world_map w" by simp
  have unf: "auxRandAugDS x0 y0 x1 y1 w =
      for_each (py_range (y0 + 1) y1) (\<lambda>y w. bindr (column_assign i y0 y1 y w)
                                     (\<lambda>_ w. column_assign i y0 y1 y w)) w2"
    using assms(1,3) by (subst auxRandAugDS.simps) (auto simp: assms(2,4))
  show ?thesis
    unfolding unf
    using column_loop[of "py_range (y0 + 1) y1" y0 y1 w2 i, OF _ _ _ refl refl] assms(5,6) w2
    by auto
qed

text \<open>The run on a grid of three lines of three cells.\<close>

lemma py_int_small: "- 1 < q \<Longrightarrow> q < 1 \<Longrightarrow> py_int q = 0"
  unfolding py_int_def by (cases "0 \<le> q") (simp_all add: floor_eq_iff ceiling_eq_iff)

lemma dev_value_small: "dev_value 0 0 2 2 q = 0"
proof -
  have "- 2 \<le> randint_value (- 2) 2 q \<and> randint_value (- 2) 2 q \<le> 2"
    by (rule randint_value_range) simp
  then have "(- 2 :: rat) \<le> of_int (randint_value (- 2) 2 q)"
    "(of_int (randint_value (- 2) 2 q) :: rat) \<le> 2"
    by (metis of_int_le_iff of_int_minus of_int_numeral)+
  then show ?thesis
    unfolding dev_value_def by (simp, intro py_int_small) (simp_all add: HEIGHT_VARIATION_FACTOR_def)
qed

lemmas eval3 = init_corners_def randint_in dev_in next_draw_def cell_defs auxRandAugDS.simps
  randAugIndex_def Diamond_def Square_def py_range_def

lemma driver_3x3:
  fixes ds :: "nat \<Rightarrow> rat"
  defines "c00 \<equiv> randint_value 0 2 (ds 0)" and "c02 \<equiv> randint_value 0 2 (ds 1)"
    and "c20 \<equiv> randint_value 0 2 (ds 2)" and "c22 \<equiv> randint_value 0 2 (ds 3)"
  defines "ctr \<equiv> dev_value 0 0 2 2 (ds 4) + py_int (of_int (c00 + c20 + c02 + c22) / 4)"
  defines "e01 \<equiv> dev_value 0 0 2 2 (ds 5) + py_int (of_int (c00 + c02 + ctr) / 3)"
    and "e21 \<equiv> dev_value 0 0 2 2 (ds 6) + py_int (of_int (c20 + c22 + ctr) / 3)"
    and "e10 \<equiv> dev_value 0 0 2 2 (ds 7) + py_int (of_int (c00 + c20 + ctr) / 3)"
    and "e12 \<equiv> dev_value 0 0 2 2 (ds 8) + py_int (of_int (c02 + c22 + ctr) / 3)"
  shows "bindr (init_corners 0 0 2 2 \<lparr>world_map = [[a, b, c], [d, e, f], [g, h, k]], draws = ds, drawn = 0\<rparr>)
           (\<lambda>_ w. auxRandAugDS 0 0 2 2 w)
         = Inr ((), \<lparr>world_map = [[c00, e01, c02], [e10, ctr, e12], [c20, e21, c22]],
                     draws = ds, drawn = 9\<rparr>)"
  unfolding c00_def c02_def c20_def c22_def ctr_def e01_def e21_def e10_def e12_def
  by (simp add: eval3 numeral_2_eq_2 numeral_3_eq_3 eval_nat_numeral)


lemma cleanup_3x3_fixed:
  fixes ds :: "nat \<Rightarrow> rat" and n :: nat
  assumes "e10 = 0 \<longrightarrow> py_int (of_int (c00 + ctr + c20) / 3) = 0"
    and "e12 = 0 \<longrightarrow> py_int (of_int (c02 + ctr + c22) / 3) = 0"
    and "e01 = 0 \<longrightarrow> py_int (of_int (c00 + ctr + c02) / 3) = 0"
    and "e21 = 0 \<longrightarrow> py_int (of_int (c20 + ctr + c22) / 3) = 0"
  defines "W \<equiv> \<lparr>world_map = [[c00, e01, c02], [e10, ctr, e12], [c20, e21, c22]],
                       draws = ds, drawn = n\<rparr>"
  shows "edgeCleanup W = Inr ((), W)"
proof -
  have x0: "cleanup_x 0 W = Inr ((), W)" and x2: "cleanup_x 2 W = Inr ((), W)"
    and y0: "cleanup_y 0 W = Inr ((), W)" and y2: "cleanup_y 2 W = Inr ((), W)"
    by (simp_all add: W_def cleanup_x_def cleanup_y_def repair_def cell_defs)
  have x1: "cleanup_x 1 W = Inr ((), W)"
    using assms(1,2) by (simp add: W_def cleanup_x_def repair_def cell_defs)
  have y1: "cleanup_y 1 W = Inr ((), W)"
    using assms(3,4) by (simp add: W_def cleanup_y_def repair_def cell_defs)
  have lens: "py_range 0 (int (length (world_map W))) = [0, 1, 2]"
    "getrow 0 W = Inr ([c00, e01, c02], W)"
    "py_range 0 (int (length [c00, e01, c02])) = [0, 1, 2]"
    by (simp_all add: W_def py_range_def upto_rec1 getrow_def py_index_def)
  show ?thesis
    by (simp only: edgeCleanup_def lens for_each.simps x0 x1 x2 y0 y1 y2 bindr_Inr)
qed


lemma bindr_assoc: "bindr (bindr m f) g = bindr m (\<lambda>a w. bindr (f a w) g)"
  by (simp add: bindr_def split: sum.splits)

lemma list3: "length xs = 3 \<Longrightarrow> \<exists>a b c. xs = [a, b, c]"
  by (auto simp: numeral_3_eq_3 length_Suc_conv)

lemma rect33:
  assumes "rect 3 3 m"
  shows "\<exists>a b c d e f g h k. m = [[a, b, c], [d, e, f], [g, h, k]]"
proof -
  from assms obtain r0 r1 r2 where m: "m = [r0, r1, r2]"
    using list3[of m] unfolding rect_def by blast
  with assms have "length r0 = 3" "length r1 = 3" "length r2 = 3" by (simp_all add: rect_def)
  then show ?thesis using m list3 by metis
qed

lemma subcalls_3x3:
  "auxRandAugDS 0 0 1 1 w = Inr ((), w)" "auxRandAugDS 0 1 1 2 w = Inr ((), w)"
  "auxRandAugDS 1 0 2 1 w = Inr ((), w)" "auxRandAugDS 1 1 2 2 w = Inr ((), w)"
  by (simp_all add: auxRandAugDS.simps randAugIndex_def py_range_def)

section \<open>What the driver and the cleanup leave untouched\<close>

lemma keeps_refl [simp]: "keeps S m m"
  by (simp add: keeps_def)



























section \<open>The midpoint selector\<close>



section \<open>Termination of the subdivision driver\<close>



section \<open>The row branch of the driver\<close>

text \<open>
  C1 (the code departs from the claim). The claim asks the second interpolation branch to
  write, for \<open>x0 < x < x1\<close>, the truncated value of
  \<open>grid[x0][j] + (grid[x1][j] - grid[x0][j]) * (x - x0) / (x1 - x0)\<close>. The source subtracts the
  other way round, \<open>grid[x0][j] - grid[x1][j]\<close>, so the written values move away from the
  far end instead of towards it. On the column \<open>[[0], [0], [2]]\<close> and the region
  \<open>(0, 0, 2, 0)\<close> the driver takes this branch without any draw and writes \<open>-1\<close> into the
  middle cell, where the interpolation of the claim gives \<open>1\<close>; a whole run on a 3 by 1 grid
  of zeros whose corner draws are \<open>0\<close> and \<open>2\<close> returns that same grid.
\<close>

theorem row_branch_slope_reversed:
  "auxRandAugDS 0 0 2 0 \<lparr>world_map = [[0], [0], [2]], draws = d, drawn = n\<rparr>
     = Inr ((), \<lparr>world_map = [[0], [- 1], [2]], draws = d, drawn = n\<rparr>)
   \<and> py_int (of_int 0 + of_int ((2 - 0) * (1 - 0)) / of_int (2 - 0)) = 1
   \<and> randAugDS fourth_gen 0 (world_of (zero_map 3 1))
     = Inr ([[0], [- 1], [2]], \<lparr>world_map = [[0], [- 1], [2]], draws = fourth_gen 0, drawn = 4\<rparr>)"
  by (simp add: cell_defs step_defs draw_defs input_defs)

section \<open>Grids outside the input contract\<close>

text \<open>
  C5 (as stated, refuted). The entry point validates nothing. A jagged grid can run to the
  end without any error: on \<open>[[0], [0, 0]]\<close> the run returns normally.
\<close>

theorem jagged_grid_not_rejected:
  "randAugDS (const_gen 0) 0 (world_of [[0], [0, 0]])
     = Inr ([[0], [0, 0]], \<lparr>world_map = [[0], [0, 0]], draws = const_gen 0 0, drawn = 4\<rparr>)"
  by (simp add: cell_defs step_defs draw_defs input_defs)

text \<open>
  C5 (amended). What the code does for the other two violations: with no row at all
  (\<open>W = 0\<close>), or with an empty first row (\<open>H = 0\<close>), the run raises \<open>IndexError\<close>, and
  the grid at that moment is still the grid that was passed in.
\<close>

theorem empty_grid_raises:
  assumes "world_map w = [] \<or> (\<exists>rest. world_map w = [] # rest)"
  shows "\<exists>w'. randAugDS gen seed w = Inl (IndexError, w') \<and> world_map w' = world_map w"
  using assms
proof
  assume "world_map w = []"
  then show ?thesis
    by (simp add: randAugDS_def random_seed_def getrow_def py_index_def)
next
  assume "\<exists>rest. world_map w = [] # rest"
  then obtain rest where "world_map w = [] # rest" ..
  then show ?thesis
    by (simp add: randAugDS_def random_seed_def init_corners_def randint_def cell_defs
        advance_def)
qed

theorem empty_grid_raises_witness:
  "randAugDS (const_gen 0) 0 (world_of [])
     = Inl (IndexError, \<lparr>world_map = [], draws = const_gen 0 0, drawn = 0\<rparr>)
   \<and> randAugDS (const_gen 0) 0 (world_of [[], []])
     = Inl (IndexError, \<lparr>world_map = [[], []], draws = const_gen 0 0, drawn = 1\<rparr>)"
  using empty_grid_raises[of "world_of []" "const_gen 0" 0]
    empty_grid_raises[of "world_of [[], []]" "const_gen 0" 0]
  by (simp add: cell_defs step_defs draw_defs input_defs)

section \<open>Determinism\<close>

text \<open>
  C7. A run is a function of the seed and the dimensions: two runs with the same seed on
  zero-filled grids of the same dimensions, started in worlds whose generators are in
  whatever state, give the same result, cell for cell (and the same error where the run
  raises).
\<close>

theorem randAugDS_deterministic:
  assumes "world_map a = zero_map W H" "world_map b = zero_map W H"
  shows "randAugDS gen seed a = randAugDS gen seed b"
proof -
  have "random_seed gen seed a = random_seed gen seed b"
    using assms by (simp add: random_seed_def)
  then show ?thesis
    by (simp add: randAugDS_def)
qed

theorem randAugDS_deterministic_witness:
  "world_map (world_of (zero_map 3 3)) = zero_map 3 3
   \<and> world_map \<lparr>world_map = zero_map 3 3, draws = (\<lambda>n. 5), drawn = 17\<rparr> = zero_map 3 3
   \<and> randAugDS (const_gen 2) 1 (world_of (zero_map 3 3))
     = randAugDS (const_gen 2) 1 \<lparr>world_map = zero_map 3 3, draws = (\<lambda>n. 5), drawn = 17\<rparr>"
  using randAugDS_deterministic[of "world_of (zero_map 3 3)" 3 3
      "\<lparr>world_map = zero_map 3 3, draws = (\<lambda>n. 5), drawn = 17\<rparr>" "const_gen 2" 1]
  by (simp add: world_of_def)

section \<open>Grids with a single row or a single column\<close>

text \<open>
  C10 (the code departs from the claim). \<open>edgeCleanup\<close> guards the neighbours \<open>y - 1\<close> and
  \<open>y + 1\<close> of a zero border cell but reads \<open>world_map[1][y]\<close> (and \<open>world_map[x][1]\<close>)
  unguarded. On a grid with one row and a zero cell strictly inside it, or with one column
  likewise, that read is out of range. A run on the 1 by 3 grid of zeros with all draws zero
  raises \<open>IndexError\<close> in the cleanup, and so does a run on the 3 by 1 grid.
\<close>

theorem single_row_cleanup_raises:
  "randAugDS (const_gen 0) 0 (world_of (zero_map 1 3))
     = Inl (IndexError, \<lparr>world_map = [[0, 0, 0]], draws = const_gen 0 0, drawn = 4\<rparr>)
   \<and> randAugDS (const_gen 0) 0 (world_of (zero_map 3 1))
     = Inl (IndexError, \<lparr>world_map = [[0], [0], [0]], draws = const_gen 0 0, drawn = 4\<rparr>)
   \<and> edgeCleanup (world_of [[1, 0, 1]]) = Inl (IndexError, world_of [[1, 0, 1]])"
  by (simp add: cell_defs step_defs draw_defs input_defs)

section \<open>The column branch of the driver\<close>



section \<open>A grid of two lines\<close>

text \<open>
  C8 (as stated, refuted). On the 2 by 7 grid of zeros with all four corners drawn as \<open>6\<close>,
  the line \<open>x = 1\<close> of the output is \<open>6, 4, 3, 3, 3, 5, 6\<close>, whereas the linear ramp between
  its corner values \<open>6\<close> and \<open>6\<close> is constant.
\<close>

theorem two_by_seven_second_line_not_ramp:
  "randAugDS (const_gen 6) 0 (world_of (zero_map 2 7))
     = Inr ([[6, 6, 6, 6, 6, 6, 6], [6, 4, 3, 3, 3, 5, 6]],
            \<lparr>world_map = [[6, 6, 6, 6, 6, 6, 6], [6, 4, 3, 3, 3, 5, 6]],
             draws = const_gen 6 0, drawn = 5\<rparr>)
   \<and> py_int (of_int 6 + of_int (6 - 6) * of_int 1 / 6) = 6"
  by (simp add: cell_defs step_defs draw_defs input_defs)

text \<open>
  C8 (amended). On every 2 by 7 grid and for every seed: the index chosen on the first axis
  of the region \<open>(0, 0, 1, 6)\<close> is \<open>0\<close> without a draw, so the driver takes the first
  interpolation branch whatever the draw for the second axis is; corner initialisation and
  driver together return normally after five draws; then line \<open>x = 0\<close> is the linear ramp
  between its two corner values, and line \<open>x = 1\<close> has its two corner values while the cells
  between them were not written by the driver. The run's result is what \<open>edgeCleanup\<close> makes
  of this grid: it is the cleanup, not an interpolation, that fills the zeros of line
  \<open>x = 1\<close>.
\<close>

theorem two_by_seven_run:
  assumes "rect 2 7 (world_map w)"
  shows "\<exists>w2. bindr (init_corners 0 0 1 6 (random_seed gen seed w)) (\<lambda>_ w. auxRandAugDS 0 0 1 6 w)
               = Inr ((), w2)
           \<and> randAugDS gen seed w = bindr (edgeCleanup w2) (\<lambda>_ w. Inr (world_map w, w))
           \<and> (\<forall>w'. randAugIndex 0 1 w' = Inr (0, w'))
           \<and> rect 2 7 (world_map w2) \<and> draws w2 = gen seed \<and> drawn w2 = 5
           \<and> (\<forall>y. 0 \<le> y \<and> y \<le> 6 \<longrightarrow> cell (world_map w2) 0 y =
                 py_int (of_int (randint_value 0 6 (gen seed 0))
                       + of_int (randint_value 0 6 (gen seed 1) - randint_value 0 6 (gen seed 0))
                         * of_int y / 6))
           \<and> cell (world_map w2) 1 0 = randint_value 0 6 (gen seed 2)
           \<and> cell (world_map w2) 1 6 = randint_value 0 6 (gen seed 3)
           \<and> (\<forall>y. 0 < y \<and> y < 6 \<longrightarrow> cell (world_map w2) 1 y = cell (world_map w) 1 y)"
proof -
  let ?w0 = "random_seed gen seed w"
  let ?m = "world_map w"
  note ib = rect_inb[OF assms]
  have inb0: "inb ?m x y = (0 \<le> x \<and> x < 2 \<and> 0 \<le> y \<and> y < 7)" for x y
    using ib[of x y] by simp
  obtain w1 where w1: "init_corners 0 0 1 6 ?w0 = Inr ((), w1)" "draws w1 = gen seed"
    "drawn w1 = 4"
    "world_map w1 = put (put (put (put ?m
                 0 0 (randint_value 0 6 (gen seed 0)))
                 0 6 (randint_value 0 6 (gen seed 1)))
                 1 0 (randint_value 0 6 (gen seed 2)))
                 1 6 (randint_value 0 6 (gen seed 3))"
    using init_corners_in[of ?w0 0 0 6 1] by (auto simp: inb0 numeral_2_eq_2 numeral_3_eq_3)
  have inb1: "inb (world_map w1) x y = (0 \<le> x \<and> x < 2 \<and> 0 \<le> y \<and> y < 7)" for x y
    by (simp add: w1(4) inb0)
  have r1: "rect 2 7 (world_map w1)" using assms by (simp add: w1(4))
  have c1: "cell (world_map w1) 0 0 = randint_value 0 6 (gen seed 0)"
    "cell (world_map w1) 0 6 = randint_value 0 6 (gen seed 1)"
    "cell (world_map w1) 1 0 = randint_value 0 6 (gen seed 2)"
    "cell (world_map w1) 1 6 = randint_value 0 6 (gen seed 3)"
    "\<And>y. 0 < y \<Longrightarrow> y < 6 \<Longrightarrow> cell (world_map w1) 1 y = cell ?m 1 y"
    by (simp_all add: w1(4) cell_put inb0)
  have idx: "randAugIndex 0 1 w' = Inr (0, w')" for w'
    by (simp add: randAugIndex_def)
  from column_branch_cells[of 0 1 0 6 w1 0 w1, OF _ idx] obtain w2 where
    w2: "auxRandAugDS 0 0 1 6 w1 = Inr ((), w2)"
      "length (world_map w2) = length (world_map w1)"
      "\<forall>k. length (world_map w2 ! k) = length (world_map w1 ! k)"
      "\<forall>x y. inb (world_map w1) x y \<longrightarrow>
                 cell (world_map w2) x y =
                   (if x = 0 \<and> 0 < y \<and> y < 6
                    then py_int (of_int (cell (world_map w1) 0 0)
                           + of_int (cell (world_map w1) 0 6 - cell (world_map w1) 0 0)
                             * of_int (y - 0) / of_int (6 - 0))
                    else cell (world_map w1) x y)"
    by (auto simp: inb1)
  obtain j where j: "randAugIndex 0 6 w1 = Inr (j, advance w1)"
    using randAugIndex_large[of 0 6 w1] by auto
  from column_branch_draws[of 0 1 0 6 w1 0 w1 j "advance w1", OF _ idx _ j]
  have d2: "draws w2 = gen seed" "drawn w2 = 5"
    using w2(1) w1(2,3) by (auto simp: inb1)
  have run: "randAugDS gen seed w = bindr (edgeCleanup w2) (\<lambda>_ w. Inr (world_map w, w))"
    using randAugDS_rect[OF assms, of gen seed] by (simp add: w1(1) w2(1))
  have r2: "rect 2 7 (world_map w2)"
    using rect_same_lengths[OF r1 w2(2,3)] .
  have cw2: "cell (world_map w2) x y =
                   (if x = 0 \<and> 0 < y \<and> y < 6
                    then py_int (of_int (cell (world_map w1) 0 0)
                           + of_int (cell (world_map w1) 0 6 - cell (world_map w1) 0 0)
                             * of_int y / 6)
                    else cell (world_map w1) x y)"
    if "0 \<le> x" "x < 2" "0 \<le> y" "y < 7" for x y
    using w2(4) that by (simp add: inb1)
  have row0: "cell (world_map w2) 0 y =
                 py_int (of_int (randint_value 0 6 (gen seed 0))
                       + of_int (randint_value 0 6 (gen seed 1) - randint_value 0 6 (gen seed 0))
                         * of_int y / 6)" if "0 \<le> y" "y \<le> 6" for y
  proof -
    have "y = 0 \<or> y = 6 \<or> (0 < y \<and> y < 6)" using that by linarith
    then consider "y = 0" | "y = 6" | "0 < y" "y < 6" by blast
    then show ?thesis
    proof cases
      case 1
      then show ?thesis by (simp add: cw2 c1)
    next
      case 2
      have e: "of_int a + of_int (b - a) * of_int (6::int) / 6 = (of_int b :: rat)" for a b :: int
        by (simp add: field_simps)
      have "cell (world_map w2) 0 6 = cell (world_map w1) 0 6" by (simp add: cw2)
      then show ?thesis unfolding 2 e py_int_of_int by (simp add: c1)
    next
      case 3
      then show ?thesis by (simp add: cw2 c1)
    qed
  qed
  have row1: "cell (world_map w2) 1 0 = randint_value 0 6 (gen seed 2)"
    "cell (world_map w2) 1 6 = randint_value 0 6 (gen seed 3)"
    "\<And>y. 0 < y \<Longrightarrow> y < 6 \<Longrightarrow> cell (world_map w2) 1 y = cell ?m 1 y"
    by (simp_all add: cw2 c1)
  show ?thesis
    using w1(1) w2(1) run idx r2 d2 row0 row1 by simp
qed

theorem two_by_seven_run_witness:
  "rect 2 7 (world_map (world_of (zero_map 2 7)))
   \<and> bindr (init_corners 0 0 1 6 (random_seed (const_gen 6) 0 (world_of (zero_map 2 7))))
        (\<lambda>_ w. auxRandAugDS 0 0 1 6 w)
     = Inr ((), \<lparr>world_map = [[6, 6, 6, 6, 6, 6, 6], [6, 0, 0, 0, 0, 0, 6]],
                 draws = const_gen 6 0, drawn = 5\<rparr>)"
  using two_by_seven_run[of "world_of (zero_map 2 7)" "const_gen 6" 0]
  by (simp add: cell_defs step_defs draw_defs input_defs rect_def)

section \<open>A grid of three lines of three cells\<close>

text \<open>
  C3. On every 3 by 3 grid and for every seed the run returns normally after exactly nine
  draws. Draws 0 to 3 are the corner values, written to \<open>(0,0)\<close>, \<open>(0,2)\<close>, \<open>(2,0)\<close>,
  \<open>(2,2)\<close>. The midpoint of \<open>0\<close> and \<open>2\<close> is \<open>1\<close> without a draw on either axis. Draw 4 is
  the deviation of the one diamond step, which sets the centre to the deviation plus the
  truncated mean of the four corners; draws 5 to 8 are the deviations of the one square step,
  which sets \<open>(0,1)\<close>, \<open>(2,1)\<close>, \<open>(1,0)\<close>, \<open>(1,2)\<close>, in this order, each to its deviation plus
  the truncated mean of its two corners and the centre. The four recursive calls, on the
  regions \<open>(0,0,1,1)\<close>, \<open>(0,1,1,2)\<close>, \<open>(1,0,2,1)\<close>, \<open>(1,1,2,2)\<close>, return the world they
  were given, and the cleanup leaves these values in place.
\<close>

theorem three_by_three_run:
  fixes gen :: "int \<Rightarrow> nat \<Rightarrow> rat" and seed :: int
  assumes "rect 3 3 (world_map w)"
  defines "c00 \<equiv> randint_value 0 2 (gen seed 0)" and "c02 \<equiv> randint_value 0 2 (gen seed 1)"
    and "c20 \<equiv> randint_value 0 2 (gen seed 2)" and "c22 \<equiv> randint_value 0 2 (gen seed 3)"
  defines "ctr \<equiv> dev_value 0 0 2 2 (gen seed 4) + py_int (of_int (c00 + c20 + c02 + c22) / 4)"
  defines "e01 \<equiv> dev_value 0 0 2 2 (gen seed 5) + py_int (of_int (c00 + c02 + ctr) / 3)"
    and "e21 \<equiv> dev_value 0 0 2 2 (gen seed 6) + py_int (of_int (c20 + c22 + ctr) / 3)"
    and "e10 \<equiv> dev_value 0 0 2 2 (gen seed 7) + py_int (of_int (c00 + c20 + ctr) / 3)"
    and "e12 \<equiv> dev_value 0 0 2 2 (gen seed 8) + py_int (of_int (c02 + c22 + ctr) / 3)"
  shows "randAugDS gen seed w
           = Inr ([[c00, e01, c02], [e10, ctr, e12], [c20, e21, c22]],
                  \<lparr>world_map = [[c00, e01, c02], [e10, ctr, e12], [c20, e21, c22]],
                   draws = gen seed, drawn = 9\<rparr>)
         \<and> (\<forall>w'. randAugIndex 0 2 w' = Inr (1, w'))
         \<and> (\<forall>w'. auxRandAugDS 0 0 1 1 w' = Inr ((), w') \<and> auxRandAugDS 0 1 1 2 w' = Inr ((), w')
                \<and> auxRandAugDS 1 0 2 1 w' = Inr ((), w') \<and> auxRandAugDS 1 1 2 2 w' = Inr ((), w'))"
proof -
  from rect33[OF assms(1)] obtain a b c d e f g h k where
    m: "world_map w = [[a, b, c], [d, e, f], [g, h, k]]" by blast
  let ?w0 = "\<lparr>world_map = [[a, b, c], [d, e, f], [g, h, k]], draws = gen seed, drawn = 0\<rparr>"
  let ?W = "\<lparr>world_map = [[c00, e01, c02], [e10, ctr, e12], [c20, e21, c22]],
                   draws = gen seed, drawn = 9\<rparr>"
  have w0: "random_seed gen seed w = ?w0"
    using m by (cases w) (simp add: random_seed_def)
  have driver: "bindr (init_corners 0 0 2 2 ?w0) (\<lambda>_ w. auxRandAugDS 0 0 2 2 w) = Inr ((), ?W)"
    unfolding c00_def c02_def c20_def c22_def ctr_def e01_def e21_def e10_def e12_def
    by (rule driver_3x3)
  have z: "e01 = py_int (of_int (c00 + c02 + ctr) / 3)" "e21 = py_int (of_int (c20 + c22 + ctr) / 3)"
    "e10 = py_int (of_int (c00 + c20 + ctr) / 3)" "e12 = py_int (of_int (c02 + c22 + ctr) / 3)"
    by (simp_all add: e01_def e21_def e10_def e12_def dev_value_small)
  have clean: "edgeCleanup ?W = Inr ((), ?W)"
    by (rule cleanup_3x3_fixed) (simp_all add: z add.commute add.left_commute)
  have "randAugDS gen seed w =
          bindr (bindr (init_corners 0 0 2 2 ?w0) (\<lambda>_ w. auxRandAugDS 0 0 2 2 w))
            (\<lambda>_ w. bindr (edgeCleanup w) (\<lambda>_ w. Inr (world_map w, w)))"
    using randAugDS_rect[OF assms(1), of gen seed] by (simp add: w0 bindr_assoc)
  then have run: "randAugDS gen seed w = Inr (world_map ?W, ?W)"
    by (simp only: driver bindr_Inr clean)
  have idx: "randAugIndex 0 2 w' = Inr (1, w')" for w'
    by (simp add: randAugIndex_def)
  show ?thesis
    using run idx subcalls_3x3 by simp
qed

theorem three_by_three_run_witness:
  "rect 3 3 (world_map (world_of (zero_map 3 3)))
   \<and> randAugDS fourth_gen 0 (world_of (zero_map 3 3))
     = Inr ([[0, 0, 0], [0, 0, 0], [0, 0, 2]],
            \<lparr>world_map = [[0, 0, 0], [0, 0, 0], [0, 0, 2]], draws = fourth_gen 0, drawn = 9\<rparr>)"
  using three_by_three_run[of "world_of (zero_map 3 3)" fourth_gen 0]
  by (simp add: input_defs rect_def randint_value_def dev_value_def HEIGHT_VARIATION_FACTOR_def)

section \<open>The corner cells\<close>




end
